theory Spec2Isabelle
  imports Main "HOL-Library.AList"
begin

section \<open>JavaScript values\<close>

text \<open>
  The values that flow through the loader, the cache and the data marker. Numbers are
  restricted to integers; \<open>JUndefined\<close> stands for an absent value and \<open>JFunction\<close> for
  a built-in function, named by the property that holds it.
\<close>

datatype jsval =
    JUndefined
  | JNull
  | JBool bool
  | JNum int
  | JStr string
  | JArr "jsval list"
  | JObj "(string \<times> jsval) list"
  | JFunction string

text \<open>JavaScript truthiness, as tested by \<^verbatim>\<open>if (value)\<close> and \<^verbatim>\<open>a || b\<close>.\<close>

fun truthy :: "jsval \<Rightarrow> bool" where
  "truthy JUndefined = False"
| "truthy JNull = False"
| "truthy (JBool b) = b"
| "truthy (JNum n) = (n \<noteq> 0)"
| "truthy (JStr s) = (s \<noteq> [])"
| "truthy (JArr xs) = True"
| "truthy (JObj kvs) = True"
| "truthy (JFunction f) = True"

text \<open>\<^verbatim>\<open>a || b\<close> on values.\<close>

definition js_or :: "jsval \<Rightarrow> jsval \<Rightarrow> jsval" where
  "js_or a b = (if truthy a then a else b)"

text \<open>
  A plain object used as a dictionary (\<^verbatim>\<open>{ [key: string]: ... }\<close>) is an association
  list of its own properties in insertion order: \<^verbatim>\<open>o[k] = v\<close> is \<open>AList.update k v o\<close>,
  \<^verbatim>\<open>delete o[k]\<close> is \<open>AList.delete k o\<close> and \<^verbatim>\<open>Object.keys(o).length\<close> is
  \<open>length o\<close>. The tables of the source are written as \<^verbatim>\<open>{}\<close>, so a read of a key
  that is not an own property answers the property that \<^verbatim>\<open>Object.prototype\<close> holds
  under that key, if any. Writes to the key \<^verbatim>\<open>__proto__\<close>, which JavaScript routes to
  the prototype, are not told apart from other writes.
\<close>

type_synonym 'v dict = "(string \<times> 'v) list"

definition Object_prototype_names :: "string list" where
  "Object_prototype_names =
     [''constructor'', ''hasOwnProperty'', ''isPrototypeOf'', ''propertyIsEnumerable'',
      ''toLocaleString'', ''toString'', ''valueOf'', ''__defineGetter__'',
      ''__defineSetter__'', ''__lookupGetter__'', ''__lookupSetter__'', ''__proto__'']"

text \<open>What a plain object answers for a key it does not own: the prototype itself under
  \<^verbatim>\<open>__proto__\<close>, a function under the other names of \<^verbatim>\<open>Object.prototype\<close>.\<close>

definition inherited :: "string \<Rightarrow> jsval" where
  "inherited k =
     (if k = ''__proto__'' then JObj []
      else if k \<in> set Object_prototype_names then JFunction k
      else JUndefined)"

text \<open>\<^verbatim>\<open>cacheMap[name]\<close> read as a value.\<close>

definition dict_get :: "jsval dict \<Rightarrow> string \<Rightarrow> jsval" where
  "dict_get d k = (case map_of d k of None \<Rightarrow> inherited k | Some v \<Rightarrow> v)"

text \<open>\<^verbatim>\<open>Object.assign(target, source)\<close>: every own property of the source is written
  into the target, in the source's order.\<close>

definition Object_assign :: "'v dict \<Rightarrow> 'v dict \<Rightarrow> 'v dict" where
  "Object_assign target source = fold (\<lambda>(k, v). AList.update k v) source target"

text \<open>The spread copy \<^verbatim>\<open>{ ...o }\<close>.\<close>

definition spread :: "'v dict \<Rightarrow> 'v dict" where
  "spread d = Object_assign [] d"

text \<open>
  The property access \<^verbatim>\<open>x.value\<close>: a property of an object, \<^verbatim>\<open>undefined\<close> on any
  other value except \<^verbatim>\<open>null\<close> and \<^verbatim>\<open>undefined\<close>, where it throws a TypeError (\<open>None\<close>).
\<close>

fun get_value :: "jsval \<Rightarrow> jsval option" where
  "get_value (JObj kvs) = Some (dict_get kvs ''value'')"
| "get_value JNull = None"
| "get_value JUndefined = None"
| "get_value v = Some JUndefined"

section \<open>The platform\<close>

text \<open>
  What the code takes from where it runs: whether it is on the server
  (\<^verbatim>\<open>typeof window === 'undefined'\<close>), and the platform's \<^verbatim>\<open>JSON.stringify\<close>, which the
  code applies to an object only, and \<^verbatim>\<open>JSON.parse\<close>, where \<open>None\<close> is the SyntaxError it
  throws.
\<close>

record env =
  isServer :: bool
  JSON_stringify :: "jsval \<Rightarrow> string"
  JSON_parse :: "string \<Rightarrow> jsval option"

section \<open>Promises and the microtask queue\<close>

text \<open>
  Promises live in a store, addressed by their index. A \<^verbatim>\<open>then\<close> with one callback
  registers a reaction and creates a derived promise; a settled promise hands its
  reactions to the microtask queue. None of the \<^verbatim>\<open>then\<close> calls of the source passes a
  rejection callback, so a rejection is handed on to the derived promise.
\<close>

datatype SuspenseType = Streaming | Ssr | Csr

text \<open>The per-instance record kept in \<^verbatim>\<open>useRef\<close>. The optional flags are only ever
  tested for truthiness, so \<^verbatim>\<open>undefined\<close> is \<open>False\<close>; an absent value or loader
  argument is \<open>JUndefined\<close>.\<close>

record SuspensePropeatyType =
  p_value :: jsval
  p_isInit :: bool
  p_isSuspenseLoad :: bool
  p_loaderValue :: jsval

definition empty_property :: SuspensePropeatyType where
  "empty_property =
     \<lparr>p_value = JUndefined, p_isInit = False, p_isSuspenseLoad = False,
      p_loaderValue = JUndefined\<rparr>"

text \<open>The props of one mounted \<^verbatim>\<open>SuspenseLoader\<close>; \<open>cid\<close> identifies the instance
  (its \<^verbatim>\<open>useRef\<close> cell and hook state).\<close>

record coord =
  cid :: nat
  name :: string
  loaderValue :: jsval
  ctype :: SuspenseType

datatype pstate = Pending | Fulfilled jsval | Rejected jsval

text \<open>The two callbacks of \<^verbatim>\<open>load\<close>: the one after the loader, which resolves the
  promise under construction, and the one after the promise, which commits the value.\<close>

datatype reaction =
    LoaderThen coord nat
  | Commit coord

record pentry =
  promise :: "nat option"
  streaming :: bool

text \<open>Hook state of one instance: the \<^verbatim>\<open>useState\<close> cells of \<^verbatim>\<open>SuspenseLoader\<close>
  itself, initialised by its first render, the number of forced renders, and the cell of
  the \<^verbatim>\<open>SuspenseWapper\<close> below it (\<open>None\<close> while that one is not mounted).\<close>

record hook_state =
  mounted :: bool
  isCSRFallback :: bool
  isVisible :: bool
  reloads :: nat
  isRequestData :: "bool option"

definition unmounted :: hook_state where
  "unmounted =
     \<lparr>mounted = False, isCSRFallback = False, isVisible = True, reloads = 0,
      isRequestData = None\<rparr>"

text \<open>
  The state that the code reads and writes: the promise store with its reactions and
  queue, the records and hook states of the instances, the tables of the tree context in
  use, the source cache of the module, and the client's document, which answers
  \<^verbatim>\<open>document.getElementById(id)\<close> with the \<^verbatim>\<open>innerHTML\<close> of the element. Three logs
  record what was called: the loader, \<^verbatim>\<open>onLoaded\<close>, and the rejections nobody handles.
\<close>

record world =
  promises :: "pstate list"
  handlers :: "(nat \<times> reaction \<times> nat) list"
  jobs :: "(reaction \<times> nat \<times> pstate) list"
  props :: "nat \<Rightarrow> SuspensePropeatyType"
  hooks :: "nat \<Rightarrow> hook_state"
  cacheMap :: "jsval dict"
  promiseMap :: "pentry dict"
  cacheSrcMap :: "jsval dict"
  document :: "string \<Rightarrow> string option"
  loaderCalls :: "(string \<times> jsval \<times> nat) list"
  onLoadedCalls :: "(nat \<times> jsval) list"
  unhandled :: "nat list"

definition fresh_world :: world where
  "fresh_world =
     \<lparr>promises = [], handlers = [], jobs = [], props = (\<lambda>_. empty_property),
      hooks = (\<lambda>_. unmounted), cacheMap = [], promiseMap = [], cacheSrcMap = [],
      document = (\<lambda>_. None), loaderCalls = [], onLoadedCalls = [], unhandled = []\<rparr>"

definition new_promise :: "pstate \<Rightarrow> world \<Rightarrow> nat \<times> world" where
  "new_promise st w = (length (promises w), w\<lparr>promises := promises w @ [st]\<rparr>)"

definition pstate_of :: "world \<Rightarrow> nat \<Rightarrow> pstate" where
  "pstate_of w p = (if p < length (promises w) then promises w ! p else Pending)"

text \<open>Settling: only a pending promise changes; its reactions become jobs. A rejection
  that no reaction waits for is recorded as unhandled.\<close>

definition settle_promise :: "nat \<Rightarrow> pstate \<Rightarrow> world \<Rightarrow> world" where
  "settle_promise p st w =
     (if p < length (promises w) \<and> promises w ! p = Pending \<and> st \<noteq> Pending then
        let mine = filter (\<lambda>h. fst h = p) (handlers w);
            rest = filter (\<lambda>h. fst h \<noteq> p) (handlers w)
        in w\<lparr>promises := (promises w)[p := st],
              handlers := rest,
              jobs := jobs w @ map (\<lambda>h. (fst (snd h), snd (snd h), st)) mine,
              unhandled := (case st of
                              Rejected e \<Rightarrow> if mine = [] then unhandled w @ [p]
                                            else unhandled w
                            | _ \<Rightarrow> unhandled w)\<rparr>
      else w)"

text \<open>\<^verbatim>\<open>p.then(callback)\<close>: returns the derived promise.\<close>

definition then_promise :: "nat \<Rightarrow> reaction \<Rightarrow> world \<Rightarrow> nat \<times> world" where
  "then_promise p r w =
     (let (d, w1) = new_promise Pending w
      in case pstate_of w p of
           Pending \<Rightarrow> (d, w1\<lparr>handlers := handlers w1 @ [(p, r, d)]\<rparr>)
         | st \<Rightarrow> (d, w1\<lparr>jobs := jobs w1 @ [(r, d, st)],
                         unhandled := removeAll p (unhandled w1)\<rparr>))"

definition update_prop ::
  "nat \<Rightarrow> (SuspensePropeatyType \<Rightarrow> SuspensePropeatyType) \<Rightarrow> world \<Rightarrow> world" where
  "update_prop c f w = w\<lparr>props := (props w)(c := f (props w c))\<rparr>"

definition update_hooks :: "nat \<Rightarrow> (hook_state \<Rightarrow> hook_state) \<Rightarrow> world \<Rightarrow> world" where
  "update_hooks c f w = w\<lparr>hooks := (hooks w)(c := f (hooks w c))\<rparr>"

text \<open>One job. The bodies are the two callbacks of \<^verbatim>\<open>load\<close>.\<close>

fun run_job :: "reaction \<times> nat \<times> pstate \<Rightarrow> world \<Rightarrow> world" where
  "run_job (r, d, Pending) w = w"
| "run_job (r, d, Rejected e) w = settle_promise d (Rejected e) w"
| "run_job (LoaderThen c outer, d, Fulfilled v) w =
     settle_promise d (Fulfilled JUndefined)
       (settle_promise outer (Fulfilled v)
          (update_prop (cid c) (\<lambda>p. p\<lparr>p_isSuspenseLoad := False\<rparr>) w))"
| "run_job (Commit c, d, Fulfilled v) w =
     settle_promise d (Fulfilled JUndefined)
       ((update_prop (cid c) (\<lambda>p. p\<lparr>p_isInit := True, p_value := v\<rparr>) w)
          \<lparr>cacheMap := AList.update (name c) v (cacheMap w),
           onLoadedCalls := onLoadedCalls w @ [(cid c, v)]\<rparr>)"

lemma settle_promise_measure:
  "2 * length (handlers (settle_promise p st w)) + length (jobs (settle_promise p st w))
   \<le> 2 * length (handlers w) + length (jobs w)"
proof -
  have "length (filter (\<lambda>h. fst h = p) (handlers w))
        + length (filter (\<lambda>h. fst h \<noteq> p) (handlers w)) = length (handlers w)"
    using sum_length_filter_compl [of "\<lambda>h. fst h = p" "handlers w"] by simp
  then show ?thesis
    by (simp add: settle_promise_def Let_def)
qed

lemma run_job_measure:
  "2 * length (handlers (run_job j w)) + length (jobs (run_job j w))
   \<le> 2 * length (handlers w) + length (jobs w)"
proof (cases "(j, w)" rule: run_job.cases)
  case (1 r d w')
  then show ?thesis by simp
next
  case (2 r d e w')
  then show ?thesis using settle_promise_measure by simp
next
  case (3 c outer d v w')
  let ?w1 = "update_prop (cid c) (\<lambda>p. p\<lparr>p_isSuspenseLoad := False\<rparr>) w"
  have a: "2 * length (handlers ?w1) + length (jobs ?w1) = 2 * length (handlers w) + length (jobs w)"
    by (simp add: update_prop_def)
  from 3 show ?thesis
    using settle_promise_measure [of d "Fulfilled JUndefined" "settle_promise outer (Fulfilled v) ?w1"]
      settle_promise_measure [of outer "Fulfilled v" ?w1] a
    by simp
next
  case (4 c d v w')
  let ?w1 = "(update_prop (cid c) (\<lambda>p. p\<lparr>p_isInit := True, p_value := v\<rparr>) w)
          \<lparr>cacheMap := AList.update (name c) v (cacheMap w),
           onLoadedCalls := onLoadedCalls w @ [(cid c, v)]\<rparr>"
  have a: "2 * length (handlers ?w1) + length (jobs ?w1) = 2 * length (handlers w) + length (jobs w)"
    by (simp add: update_prop_def)
  from 4 show ?thesis
    using settle_promise_measure [of d "Fulfilled JUndefined" ?w1] a
    by simp
qed

text \<open>The microtask checkpoint: jobs run in order until the queue is empty.\<close>

function run_jobs :: "world \<Rightarrow> world" where
  "run_jobs w =
     (case jobs w of
        [] \<Rightarrow> w
      | j # js \<Rightarrow> run_jobs (run_job j (w\<lparr>jobs := js\<rparr>)))"
  by pat_completeness auto
termination
proof (relation "measure (\<lambda>w. 2 * length (handlers w) + length (jobs w))")
  show "wf (measure (\<lambda>w. 2 * length (handlers w) + length (jobs w)))" by simp
next
  fix w :: world and j js
  assume "jobs w = j # js"
  then have "2 * length (handlers (w\<lparr>jobs := js\<rparr>)) + length (jobs (w\<lparr>jobs := js\<rparr>))
             < 2 * length (handlers w) + length (jobs w)"
    by simp
  then show "(run_job j (w\<lparr>jobs := js\<rparr>), w)
             \<in> measure (\<lambda>w. 2 * length (handlers w) + length (jobs w))"
    using run_job_measure [of j "w\<lparr>jobs := js\<rparr>"] by simp
qed

declare run_jobs.simps [simp del]

section \<open>The load coordinator\<close>

definition idName :: "string \<Rightarrow> string" where
  "idName n = ''#__NEXT_DATA__STREAM__'' @ n"

text \<open>
  The first evaluation of \<^verbatim>\<open>SuspenseLoader\<close>: a record that is not initialized adopts
  what the cache answers for its name when that value is truthy.
\<close>

definition adoptCache :: "coord \<Rightarrow> world \<Rightarrow> world" where
  "adoptCache c w =
     (if \<not> p_isInit (props w (cid c)) then
        let v = dict_get (cacheMap w) (name c)
        in if truthy v then
             (update_prop (cid c)
                (\<lambda>p. p\<lparr>p_value := v, p_isInit := True, p_isSuspenseLoad := False\<rparr>) w)
               \<lparr>onLoadedCalls := onLoadedCalls w @ [(cid c, v)]\<rparr>
           else w
      else w)"

text \<open>
  The executor of \<^verbatim>\<open>new Promise\<close> in \<^verbatim>\<open>load\<close>, for the promise \<open>outer\<close>. Off the
  server a marker element of the document is parsed and resolves the promise at once; an
  exception of \<^verbatim>\<open>JSON.parse\<close> or of the property access rejects it. Otherwise the
  loader is called: the call is logged with its argument and the promise it returns, which
  the environment settles later.
\<close>

definition executor :: "env \<Rightarrow> coord \<Rightarrow> nat \<Rightarrow> world \<Rightarrow> world" where
  "executor e c outer w =
     (case (if isServer e then None else document w (idName (name c))) of
        Some innerHTML \<Rightarrow>
          let w1 = update_prop (cid c) (\<lambda>p. p\<lparr>p_isSuspenseLoad := True\<rparr>) w
          in (case JSON_parse e innerHTML of
                None \<Rightarrow> settle_promise outer (Rejected (JStr ''SyntaxError'')) w1
              | Some parsed \<Rightarrow>
                  (case get_value parsed of
                     None \<Rightarrow> settle_promise outer (Rejected (JStr ''TypeError'')) w1
                   | Some v \<Rightarrow> settle_promise outer (Fulfilled v) w1))
      | None \<Rightarrow>
          let arg = js_or (p_loaderValue (props w (cid c))) (loaderValue c);
              (q, w1) = new_promise Pending w;
              w2 = w1\<lparr>loaderCalls := loaderCalls w1 @ [(name c, arg, q)]\<rparr>
          in snd (then_promise q (LoaderThen c outer) w2))"

text \<open>\<^verbatim>\<open>isServer && promiseMap[name]?.promise\<close>: the promise of the entry that the table
  owns under the name. What the table inherits under a name has no \<^verbatim>\<open>promise\<close>.\<close>

definition registered :: "env \<Rightarrow> coord \<Rightarrow> world \<Rightarrow> nat option" where
  "registered e c w =
     (if isServer e then
        (case map_of (promiseMap w) (name c) of
           None \<Rightarrow> None
         | Some pe \<Rightarrow> promise pe)
      else None)"

text \<open>\<^verbatim>\<open>load\<close>: returns the promise it throws to the engine.\<close>

definition load :: "env \<Rightarrow> coord \<Rightarrow> world \<Rightarrow> nat \<times> world" where
  "load e c w =
     (let (p, w1) =
            (case registered e c w of
               Some p \<Rightarrow> (p, w)
             | None \<Rightarrow>
                 let (outer, w0) = new_promise Pending w
                 in (outer, executor e c outer w0));
          w2 = snd (then_promise p (Commit c) w1);
          w3 = (if isServer e then
                  w2\<lparr>promiseMap :=
                        AList.update (name c)
                          \<lparr>promise = Some p, streaming = (ctype c = Streaming)\<rparr>
                          (promiseMap w2)\<rparr>
                else w2)
      in (p, w3))"

text \<open>\<^verbatim>\<open>loadDispatch\<close>, the reload trigger (\<^verbatim>\<open>src/index.tsx\<close>).\<close>

definition loadDispatch :: "env \<Rightarrow> coord \<Rightarrow> jsval \<Rightarrow> world \<Rightarrow> world" where
  "loadDispatch e c v w =
     (let w1 = update_prop (cid c)
                 (\<lambda>p. p\<lparr>p_value := JUndefined, p_isInit := False, p_loaderValue := v\<rparr>) w;
          w2 = w1\<lparr>cacheMap := AList.delete (name c) (cacheMap w1),
                  promiseMap := AList.delete (name c) (promiseMap w1)\<rparr>
      in update_hooks (cid c)
           (\<lambda>h. h\<lparr>isVisible := isServer e, reloads := Suc (reloads h)\<rparr>) w2)"

section \<open>The suspension adapter\<close>

text \<open>What one render of a \<^verbatim>\<open>SuspenseLoader\<close> produces: the fallback alone, a
  suspension on a promise (the \<^verbatim>\<open>Suspense\<close> boundary shows the fallback), an empty
  boundary, or the provider with the published value and, when emitted, the marker
  element (its id and its text).\<close>

datatype render_output =
    Fallback
  | Suspended nat
  | Hidden
  | Rendered "(string \<times> string) option" jsval

text \<open>The text of the marker, \<^verbatim>\<open>JSON.stringify({ value })\<close>.\<close>

definition marker_text :: "env \<Rightarrow> jsval \<Rightarrow> string" where
  "marker_text e v = JSON_stringify e (JObj [(''value'', v)])"

text \<open>\<^verbatim>\<open>SuspenseWapper\<close>; \<open>streaming_prop\<close> is its prop \<^verbatim>\<open>streaming\<close>.\<close>

definition SuspenseWapper :: "env \<Rightarrow> coord \<Rightarrow> bool \<Rightarrow> world \<Rightarrow> render_output \<times> world" where
  "SuspenseWapper e c streaming_prop w =
     (let pr = props w (cid c)
      in if \<not> p_isInit pr then
           let (p, w1) = load e c w in (Suspended p, w1)
         else
           let rd = (case isRequestData (hooks w (cid c)) of
                       None \<Rightarrow> (p_isSuspenseLoad pr \<or> isServer e) \<and> streaming_prop
                     | Some b \<Rightarrow> b);
               w1 = update_hooks (cid c) (\<lambda>h. h\<lparr>isRequestData := Some rd\<rparr>) w
           in (Rendered (if rd then Some (idName (name c), marker_text e (p_value pr)) else None)
                 (p_value pr), w1))"

text \<open>\<^verbatim>\<open>SuspenseLoader\<close> (\<^verbatim>\<open>src/index.tsx\<close>): one render of the instance.\<close>

definition SuspenseLoader :: "env \<Rightarrow> coord \<Rightarrow> world \<Rightarrow> render_output \<times> world" where
  "SuspenseLoader e c w =
     (let w0 = (if mounted (hooks w (cid c)) then w
                else update_hooks (cid c)
                       (\<lambda>h. h\<lparr>mounted := True, isCSRFallback := (ctype c = Csr),
                              isVisible := True\<rparr>) w);
          w1 = adoptCache c w0;
          h = hooks w1 (cid c)
      in if isCSRFallback h then
           (Fallback, update_hooks (cid c) (\<lambda>h. h\<lparr>isRequestData := None\<rparr>) w1)
         else if \<not> isVisible h then
           (Hidden, update_hooks (cid c) (\<lambda>h. h\<lparr>isRequestData := None\<rparr>) w1)
         else
           SuspenseWapper e c (\<not> truthy (dict_get (cacheSrcMap w1) (name c))) w1)"

text \<open>
  The effects after a commit; the engine runs none on the server. The effect of the
  adapter disarms its latch, and the render this forces takes the marker element that the
  adapter had emitted out of the document.
\<close>

definition run_effects :: "env \<Rightarrow> coord \<Rightarrow> world \<Rightarrow> world" where
  "run_effects e c w =
     (if isServer e then w
      else
        let w1 = update_hooks (cid c)
                   (\<lambda>h. h\<lparr>isCSRFallback := False, isVisible := True,
                          isRequestData := (case isRequestData h of
                                              None \<Rightarrow> None
                                            | Some b \<Rightarrow> Some False)\<rparr>) w
        in if isRequestData (hooks w (cid c)) = Some True
           then w1\<lparr>document := (document w1)(idName (name c) := None)\<rparr>
           else w1)"

section \<open>The engine and the environment\<close>

text \<open>
  What the engine does to the client's document when it commits the output of an
  instance: the marker element is there while the output holds it, and is taken out when
  the output holds none; a suspended render leaves the document as it is. The server has
  no document.
\<close>

fun commit :: "env \<Rightarrow> coord \<Rightarrow> render_output \<Rightarrow> world \<Rightarrow> world" where
  "commit e c (Suspended p) w = w"
| "commit e c (Rendered (Some m) v) w =
     (if isServer e then w
      else case document w (fst m) of
             None \<Rightarrow> w\<lparr>document := (document w)(fst m := Some (snd m))\<rparr>
           | Some t \<Rightarrow> w)"
| "commit e c out w =
     (if isServer e then w
      else w\<lparr>document := (document w)(idName (name c) := None)\<rparr>)"

text \<open>
  The tree engine and the outside world drive an instance through these events: a render
  of the instance with its commit, the settlement of a promise that a loader call
  returned, a microtask checkpoint, the effects after a commit, and a call of the reload
  trigger.
\<close>

datatype event =
    Render coord
  | Settle nat pstate
  | Checkpoint
  | Effects coord
  | Dispatch coord jsval

fun is_Dispatch :: "event \<Rightarrow> bool" where
  "is_Dispatch (Dispatch c v) = True"
| "is_Dispatch ev = False"

fun step :: "env \<Rightarrow> event \<Rightarrow> world \<Rightarrow> world" where
  "step e (Render c) w = commit e c (fst (SuspenseLoader e c w)) (snd (SuspenseLoader e c w))"
| "step e (Settle q st) w =
     (if q \<in> set (map (\<lambda>lc. snd (snd lc)) (loaderCalls w)) then settle_promise q st w else w)"
| "step e Checkpoint w = run_jobs w"
| "step e (Effects c) w = run_effects e c w"
| "step e (Dispatch c v) w = loadDispatch e c v w"

definition run :: "env \<Rightarrow> event list \<Rightarrow> world \<Rightarrow> world" where
  "run e evs w = fold (step e) evs w"

text \<open>The loader invocations made for one name.\<close>

definition loaderCallsFor :: "string \<Rightarrow> world \<Rightarrow> (string \<times> jsval \<times> nat) list" where
  "loaderCallsFor n w = filter (\<lambda>lc. fst lc = n) (loaderCalls w)"

text \<open>
  The schedule of the engine on one instance. A paint is a render with its commit, the
  effects of that commit, which run before the instance renders again, and the microtasks
  that were queued; a settlement and a reload each end with the microtask checkpoint that
  follows every task.
\<close>

datatype action =
    Paint coord
  | Settled nat pstate
  | Reload coord jsval



fun of_instance :: "coord \<Rightarrow> action \<Rightarrow> bool" where
  "of_instance c (Paint c') = (c' = c)"
| "of_instance c (Settled q st) = True"
| "of_instance c (Reload c' v) = (c' = c)"

text \<open>Whether an event is a render that emits a marker, and how many events of a run
  do.\<close>

fun emits :: "env \<Rightarrow> event \<Rightarrow> world \<Rightarrow> bool" where
  "emits e (Render c) w =
     (case fst (SuspenseLoader e c w) of Rendered (Some m) v \<Rightarrow> True | _ \<Rightarrow> False)"
| "emits e ev w = False"

fun emissions :: "env \<Rightarrow> event list \<Rightarrow> world \<Rightarrow> nat" where
  "emissions e [] w = 0"
| "emissions e (ev # evs) w =
     (if emits e ev w then 1 else 0) + emissions e evs (step e ev w)"

section \<open>The global context bridge\<close>

record SuspenseTreeContextType =
  ctx_promiseMap :: "pentry dict"
  ctx_cacheMap :: "jsval dict"

text \<open>
  \<^verbatim>\<open>setSuspenseTreeContext\<close> of \<^verbatim>\<open>src/index.tsx\<close>, on a world whose tree context is the
  process-wide default one (\<^verbatim>\<open>globalTreeContext\<close>): \<open>None\<close> is the absent argument.
\<close>

definition setSuspenseTreeContext :: "SuspenseTreeContextType option \<Rightarrow> world \<Rightarrow> world" where
  "setSuspenseTreeContext context w =
     (case context of
        None \<Rightarrow> w
      | Some ctx \<Rightarrow>
          w\<lparr>promiseMap := Object_assign (promiseMap w) (ctx_promiseMap ctx),
            cacheMap := Object_assign (cacheMap w) (ctx_cacheMap ctx),
            cacheSrcMap := spread (ctx_cacheMap ctx)\<rparr>)"

text \<open>The variant of the second source file, which assigns the two tables.\<close>

definition setSuspenseTreeContext_p0 :: "SuspenseTreeContextType option \<Rightarrow> world \<Rightarrow> world" where
  "setSuspenseTreeContext_p0 context w =
     (case context of
        None \<Rightarrow> w
      | Some ctx \<Rightarrow>
          w\<lparr>promiseMap := ctx_promiseMap ctx,
            cacheMap := ctx_cacheMap ctx,
            cacheSrcMap := spread (ctx_cacheMap ctx)\<rparr>)"

section \<open>The tree collector\<close>



















section \<open>The tree collector in the words of the specification\<close>










section \<open>A platform for the examples\<close>

text \<open>
  The environments of the examples carry this printer and reader of JSON text. They
  cover the values of the model: integers in plain decimal, strings of bytes with the
  escapes of the quote, the backslash and the control characters, arrays and objects. In
  an array an absent value or a function is written \<^verbatim>\<open>null\<close>, in an object a property
  holding one is left out. The reader refuses fractions and exponents, which have no value
  in the model, and escapes of characters beyond the ASCII range.
\<close>

definition digit_char :: "nat \<Rightarrow> char" where
  "digit_char n = ''0123456789abcdef'' ! n"

fun nat_digits :: "nat \<Rightarrow> string" where
  "nat_digits n =
     (if n < 10 then [digit_char n] else nat_digits (n div 10) @ [digit_char (n mod 10)])"

declare nat_digits.simps [simp del]

definition int_text :: "int \<Rightarrow> string" where
  "int_text i = (if i < 0 then CHR ''-'' # nat_digits (nat (- i)) else nat_digits (nat i))"

definition dquote :: char where
  "dquote = CHR 0x22"

definition backslash :: char where
  "backslash = CHR 0x5C"

definition escape_char :: "char \<Rightarrow> string" where
  "escape_char c =
     (if c = dquote \<or> c = backslash then [backslash, c]
      else if c = CHR 0x08 then [backslash, CHR ''b'']
      else if c = CHR 0x09 then [backslash, CHR ''t'']
      else if c = CHR 0x0A then [backslash, CHR ''n'']
      else if c = CHR 0x0C then [backslash, CHR ''f'']
      else if c = CHR 0x0D then [backslash, CHR ''r'']
      else if (of_char c :: nat) < 32 then
        [backslash, CHR ''u'', CHR ''0'', CHR ''0'',
         digit_char (of_char c div 16), digit_char (of_char c mod 16)]
      else [c])"

definition quote :: "string \<Rightarrow> string" where
  "quote s = dquote # concat (map escape_char s) @ [dquote]"

fun join_comma :: "string list \<Rightarrow> string" where
  "join_comma [] = []"
| "join_comma [x] = x"
| "join_comma (x # y # ys) = x @ '','' @ join_comma (y # ys)"

fun unprintable :: "jsval \<Rightarrow> bool" where
  "unprintable JUndefined = True"
| "unprintable (JFunction f) = True"
| "unprintable v = False"

fun sample_text :: "jsval \<Rightarrow> string" where
  "sample_text JUndefined = ''null''"
| "sample_text (JFunction f) = ''null''"
| "sample_text JNull = ''null''"
| "sample_text (JBool b) = (if b then ''true'' else ''false'')"
| "sample_text (JNum n) = int_text n"
| "sample_text (JStr s) = quote s"
| "sample_text (JArr xs) = ''['' @ join_comma (map sample_text xs) @ '']''"
| "sample_text (JObj kvs) =
     ''{'' @ join_comma (map (\<lambda>kv. quote (fst kv) @ '':'' @ sample_text (snd kv))
                          (filter (\<lambda>kv. \<not> unprintable (snd kv)) kvs)) @ ''}''"

definition is_ws :: "char \<Rightarrow> bool" where
  "is_ws c = (c = CHR '' '' \<or> c = CHR 0x0A \<or> c = CHR 0x0D \<or> c = CHR 0x09)"

definition skip_ws :: "string \<Rightarrow> string" where
  "skip_ws s = dropWhile is_ws s"

definition is_digit :: "char \<Rightarrow> bool" where
  "is_digit c = (c \<in> set ''0123456789'')"

definition digit_val :: "char \<Rightarrow> nat" where
  "digit_val c = of_char c - 48"

definition digits_val :: "string \<Rightarrow> nat" where
  "digits_val ds = foldl (\<lambda>acc c. 10 * acc + digit_val c) 0 ds"

definition hex_val :: "char \<Rightarrow> nat option" where
  "hex_val c =
     (if is_digit c then Some (of_char c - 48)
      else if c \<in> set ''abcdef'' then Some (of_char c - 87)
      else if c \<in> set ''ABCDEF'' then Some (of_char c - 55)
      else None)"

text \<open>The character after a backslash, with the rest of the text.\<close>

fun read_escape :: "string \<Rightarrow> (char \<times> string) option" where
  "read_escape [] = None"
| "read_escape (d # ds) =
     (if d = dquote \<or> d = backslash \<or> d = CHR ''/'' then Some (d, ds)
      else if d = CHR ''b'' then Some (CHR 0x08, ds)
      else if d = CHR ''t'' then Some (CHR 0x09, ds)
      else if d = CHR ''n'' then Some (CHR 0x0A, ds)
      else if d = CHR ''f'' then Some (CHR 0x0C, ds)
      else if d = CHR ''r'' then Some (CHR 0x0D, ds)
      else if d = CHR ''u'' then
        (case ds of
           a # b # x # y # r \<Rightarrow>
             (case (hex_val a, hex_val b, hex_val x, hex_val y) of
                (Some 0, Some 0, Some h, Some l) \<Rightarrow>
                  if h < 8 then Some (char_of (16 * h + l), r) else None
              | _ \<Rightarrow> None)
         | _ \<Rightarrow> None)
      else None)"

lemma read_escape_shorter: "read_escape s = Some (c, r) \<Longrightarrow> length r < length s"
  by (cases s) (auto split: if_splits list.splits option.splits nat.splits)

text \<open>The body of a string literal, after its opening quote.\<close>

function parse_string_body :: "string \<Rightarrow> (string \<times> string) option" where
  "parse_string_body [] = None"
| "parse_string_body (c # cs) =
     (if c = dquote then Some ([], cs)
      else if c = backslash then
        (case read_escape cs of
           None \<Rightarrow> None
         | Some (d, ds) \<Rightarrow>
             (case parse_string_body ds of
                None \<Rightarrow> None
              | Some (str, r) \<Rightarrow> Some (d # str, r)))
      else if (of_char c :: nat) < 32 then None
      else
        (case parse_string_body cs of
           None \<Rightarrow> None
         | Some (str, r) \<Rightarrow> Some (c # str, r)))"
  by pat_completeness auto
termination
  by (relation "measure length") (auto dest: read_escape_shorter)

definition parse_number :: "string \<Rightarrow> (jsval \<times> string) option" where
  "parse_number s =
     (let neg = (s \<noteq> [] \<and> hd s = CHR ''-'');
          t = (if neg then tl s else s);
          ds = takeWhile is_digit t;
          r = dropWhile is_digit t
      in if ds = [] then None
         else if hd ds = CHR ''0'' \<and> tl ds \<noteq> [] then None
         else if r \<noteq> [] \<and> hd r \<in> set ''.eE'' then None
         else Some (JNum (if neg then - int (digits_val ds) else int (digits_val ds)), r))"

definition strip_prefix :: "string \<Rightarrow> string \<Rightarrow> string option" where
  "strip_prefix p s = (if take (length p) s = p then Some (drop (length p) s) else None)"

text \<open>The recursive descent, with fuel for the nesting.\<close>

fun parse_value :: "nat \<Rightarrow> string \<Rightarrow> (jsval \<times> string) option"
  and parse_elems :: "nat \<Rightarrow> string \<Rightarrow> (jsval list \<times> string) option"
  and parse_members :: "nat \<Rightarrow> string \<Rightarrow> ((string \<times> jsval) list \<times> string) option"
where
  "parse_value 0 s = None"
| "parse_value (Suc n) s =
     (case skip_ws s of
        [] \<Rightarrow> None
      | c # cs \<Rightarrow>
          if c = dquote then
            (case parse_string_body cs of
               None \<Rightarrow> None
             | Some (str, r) \<Rightarrow> Some (JStr str, r))
          else if c = CHR ''['' then
            (case skip_ws cs of
               [] \<Rightarrow> None
             | d # ds \<Rightarrow>
                 if d = CHR '']'' then Some (JArr [], ds)
                 else (case parse_elems n cs of
                         None \<Rightarrow> None
                       | Some (vs, r) \<Rightarrow> Some (JArr vs, r)))
          else if c = CHR ''{'' then
            (case skip_ws cs of
               [] \<Rightarrow> None
             | d # ds \<Rightarrow>
                 if d = CHR ''}'' then Some (JObj [], ds)
                 else (case parse_members n cs of
                         None \<Rightarrow> None
                       | Some (ms, r) \<Rightarrow> Some (JObj (spread ms), r)))
          else
            (case strip_prefix ''null'' (c # cs) of
               Some r \<Rightarrow> Some (JNull, r)
             | None \<Rightarrow>
            (case strip_prefix ''true'' (c # cs) of
               Some r \<Rightarrow> Some (JBool True, r)
             | None \<Rightarrow>
            (case strip_prefix ''false'' (c # cs) of
               Some r \<Rightarrow> Some (JBool False, r)
             | None \<Rightarrow> parse_number (c # cs)))))"
| "parse_elems 0 s = None"
| "parse_elems (Suc n) s =
     (case parse_value n s of
        None \<Rightarrow> None
      | Some (v, r) \<Rightarrow>
          (case skip_ws r of
             [] \<Rightarrow> None
           | c # cs \<Rightarrow>
               if c = CHR '','' then
                 (case parse_elems n cs of
                    None \<Rightarrow> None
                  | Some (vs, r') \<Rightarrow> Some (v # vs, r'))
               else if c = CHR '']'' then Some ([v], cs)
               else None))"
| "parse_members 0 s = None"
| "parse_members (Suc n) s =
     (case skip_ws s of
        [] \<Rightarrow> None
      | q # qs \<Rightarrow>
          if q \<noteq> dquote then None
          else
            (case parse_string_body qs of
               None \<Rightarrow> None
             | Some (k, r) \<Rightarrow>
                 (case skip_ws r of
                    [] \<Rightarrow> None
                  | c # cs \<Rightarrow>
                      if c \<noteq> CHR '':'' then None
                      else
                        (case parse_value n cs of
                           None \<Rightarrow> None
                         | Some (v, r') \<Rightarrow>
                             (case skip_ws r' of
                                [] \<Rightarrow> None
                              | e # es \<Rightarrow>
                                  if e = CHR '','' then
                                    (case parse_members n es of
                                       None \<Rightarrow> None
                                     | Some (ms, r'') \<Rightarrow> Some ((k, v) # ms, r''))
                                  else if e = CHR ''}'' then Some ([(k, v)], es)
                                  else None)))))"

definition sample_parse :: "string \<Rightarrow> jsval option" where
  "sample_parse s =
     (case parse_value (2 * length s + 2) s of
        None \<Rightarrow> None
      | Some (v, r) \<Rightarrow> if skip_ws r = [] then Some v else None)"

section \<open>Example inputs\<close>

text \<open>Concrete environments, instances and worlds on which the theorems below are
  evaluated: a server and a client, and three instances of one name, one of each type.\<close>

definition server_env :: env where
  "server_env = \<lparr>isServer = True, JSON_stringify = sample_text, JSON_parse = sample_parse\<rparr>"

definition client_env :: env where
  "client_env = \<lparr>isServer = False, JSON_stringify = sample_text, JSON_parse = sample_parse\<rparr>"

definition news1 :: coord where
  "news1 = \<lparr>cid = 1, name = ''news'', loaderValue = JStr ''topstories'', ctype = Streaming\<rparr>"

definition news2 :: coord where
  "news2 = \<lparr>cid = 2, name = ''news'', loaderValue = JStr ''topstories'', ctype = Ssr\<rparr>"

definition news3 :: coord where
  "news3 = \<lparr>cid = 3, name = ''news'', loaderValue = JStr ''topstories'', ctype = Csr\<rparr>"






section \<open>Frame lemmas\<close>

lemma settle_promise_frame [simp]:
  "loaderCalls (settle_promise p st w) = loaderCalls w"
  "promiseMap (settle_promise p st w) = promiseMap w"
  "cacheMap (settle_promise p st w) = cacheMap w"
  "cacheSrcMap (settle_promise p st w) = cacheSrcMap w"
  "props (settle_promise p st w) = props w"
  "hooks (settle_promise p st w) = hooks w"
  "onLoadedCalls (settle_promise p st w) = onLoadedCalls w"
  "document (settle_promise p st w) = document w"
  "length (promises (settle_promise p st w)) = length (promises w)"
  by (simp_all add: settle_promise_def Let_def)

lemma then_promise_frame [simp]:
  "loaderCalls (snd (then_promise p r w)) = loaderCalls w"
  "promiseMap (snd (then_promise p r w)) = promiseMap w"
  "cacheMap (snd (then_promise p r w)) = cacheMap w"
  "cacheSrcMap (snd (then_promise p r w)) = cacheSrcMap w"
  "props (snd (then_promise p r w)) = props w"
  "hooks (snd (then_promise p r w)) = hooks w"
  "onLoadedCalls (snd (then_promise p r w)) = onLoadedCalls w"
  "document (snd (then_promise p r w)) = document w"
  "length (promises (snd (then_promise p r w))) = Suc (length (promises w))"
  by (simp_all add: then_promise_def new_promise_def Let_def split: pstate.splits)

lemma update_prop_frame [simp]:
  "loaderCalls (update_prop i f w) = loaderCalls w"
  "promiseMap (update_prop i f w) = promiseMap w"
  "cacheMap (update_prop i f w) = cacheMap w"
  "cacheSrcMap (update_prop i f w) = cacheSrcMap w"
  "hooks (update_prop i f w) = hooks w"
  "onLoadedCalls (update_prop i f w) = onLoadedCalls w"
  "promises (update_prop i f w) = promises w"
  "handlers (update_prop i f w) = handlers w"
  "jobs (update_prop i f w) = jobs w"
  "unhandled (update_prop i f w) = unhandled w"
  "document (update_prop i f w) = document w"
  "props (update_prop i f w) j = (if j = i then f (props w i) else props w j)"
  by (simp_all add: update_prop_def)

lemma update_hooks_frame [simp]:
  "loaderCalls (update_hooks i f w) = loaderCalls w"
  "promiseMap (update_hooks i f w) = promiseMap w"
  "cacheMap (update_hooks i f w) = cacheMap w"
  "cacheSrcMap (update_hooks i f w) = cacheSrcMap w"
  "props (update_hooks i f w) = props w"
  "onLoadedCalls (update_hooks i f w) = onLoadedCalls w"
  "promises (update_hooks i f w) = promises w"
  "handlers (update_hooks i f w) = handlers w"
  "jobs (update_hooks i f w) = jobs w"
  "unhandled (update_hooks i f w) = unhandled w"
  "document (update_hooks i f w) = document w"
  "hooks (update_hooks i f w) j = (if j = i then f (hooks w i) else hooks w j)"
  by (simp_all add: update_hooks_def)

lemma adoptCache_frame [simp]:
  "loaderCalls (adoptCache c w) = loaderCalls w"
  "promiseMap (adoptCache c w) = promiseMap w"
  "cacheMap (adoptCache c w) = cacheMap w"
  "cacheSrcMap (adoptCache c w) = cacheSrcMap w"
  "hooks (adoptCache c w) = hooks w"
  "promises (adoptCache c w) = promises w"
  "handlers (adoptCache c w) = handlers w"
  "jobs (adoptCache c w) = jobs w"
  "document (adoptCache c w) = document w"
  by (simp_all add: adoptCache_def Let_def)

lemma load_registered:
  assumes "registered e c w = Some p"
  shows "fst (load e c w) = p" and "loaderCalls (snd (load e c w)) = loaderCalls w"
  using assms by (simp_all add: load_def Let_def split: prod.splits)

lemma load_loader_path:
  assumes "registered e c w = None" and "isServer e \<or> document w (idName (name c)) = None"
  shows "loaderCalls (snd (load e c w)) =
           loaderCalls w @ [(name c, js_or (p_loaderValue (props w (cid c))) (loaderValue c),
                             Suc (length (promises w)))]"
  using assms
  by (auto simp add: load_def executor_def new_promise_def Let_def split: prod.splits)

lemma load_fresh_promise:
  assumes "registered e c w = None"
  shows "fst (load e c w) = length (promises w)"
  using assms by (simp add: load_def new_promise_def Let_def split: prod.splits)

section \<open>Cache adoption tests truthiness\<close>



section \<open>The mode does not gate cache adoption\<close>

text \<open>
  C3, as stated, fails: an instance of type \<^verbatim>\<open>'csr'\<close> whose name holds a truthy value in
  a pre-seeded cache adopts that value on its first evaluation and never calls the loader.
\<close>

theorem csr_adopts_preseeded_cache_counterexample:
  "p_isInit (props (run client_env [Render news3, Effects news3, Render news3, Checkpoint]
                      (fresh_world\<lparr>cacheMap := [(''news'', JNum 4)]\<rparr>)) 3)
   \<and> p_value (props (run client_env [Render news3, Effects news3, Render news3, Checkpoint]
                      (fresh_world\<lparr>cacheMap := [(''news'', JNum 4)]\<rparr>)) 3) = JNum 4
   \<and> loaderCalls (run client_env [Render news3, Effects news3, Render news3, Checkpoint]
                      (fresh_world\<lparr>cacheMap := [(''news'', JNum 4)]\<rparr>)) = []"
  by code_simp

text \<open>
  C3, amended. Whatever the type, an instance that is not initialized and whose name holds
  a truthy value in the cache adopts that value in its render and calls no loader; for
  type \<^verbatim>\<open>'csr'\<close> the first render of the instance shows the fallback all the same.
\<close>

theorem cache_adoption_ignores_type:
  assumes "\<not> p_isInit (props w (cid c))"
    and "map_of (cacheMap w) (name c) = Some v"
    and "truthy v"
  shows "p_isInit (props (snd (SuspenseLoader e c w)) (cid c))
       \<and> p_value (props (snd (SuspenseLoader e c w)) (cid c)) = v
       \<and> loaderCalls (snd (SuspenseLoader e c w)) = loaderCalls w
       \<and> (\<not> mounted (hooks w (cid c)) \<and> ctype c = Csr \<longrightarrow>
            fst (SuspenseLoader e c w) = Fallback)"
proof -
  have g: "dict_get (cacheMap w) (name c) = v"
    using assms(2) by (simp add: dict_get_def)
  show ?thesis
    using assms(1,3) g
    by (simp add: SuspenseLoader_def SuspenseWapper_def adoptCache_def Let_def)
qed

theorem cache_adoption_ignores_type_witness:
  "p_isInit (props (snd (SuspenseLoader client_env news3
                           (fresh_world\<lparr>cacheMap := [(''news'', JNum 4)]\<rparr>))) (cid news3))
   \<and> p_value (props (snd (SuspenseLoader client_env news3
                           (fresh_world\<lparr>cacheMap := [(''news'', JNum 4)]\<rparr>))) (cid news3)) = JNum 4
   \<and> loaderCalls (snd (SuspenseLoader client_env news3
                           (fresh_world\<lparr>cacheMap := [(''news'', JNum 4)]\<rparr>))) = []
   \<and> fst (SuspenseLoader client_env news3 (fresh_world\<lparr>cacheMap := [(''news'', JNum 4)]\<rparr>))
       = Fallback"
proof -
  let ?w = "fresh_world\<lparr>cacheMap := [(''news'', JNum 4)]\<rparr>"
  have h1: "\<not> p_isInit (props ?w (cid news3))"
    by (simp add: fresh_world_def empty_property_def)
  have h2: "map_of (cacheMap ?w) (name news3) = Some (JNum 4)"
    by (simp add: news3_def)
  have h3: "truthy (JNum 4)" by simp
  have m: "\<not> mounted (hooks ?w (cid news3)) \<and> ctype news3 = Csr"
    by (simp add: fresh_world_def unmounted_def news3_def)
  have z: "loaderCalls ?w = []" by (simp add: fresh_world_def)
  from cache_adoption_ignores_type [OF h1 h2 h3, of client_env] m z
  show ?thesis by simp
qed

section \<open>Invariants of a tree context scope\<close>

text \<open>Every loader call that was made has its name registered in the pending-load table
  with a promise, and no name was called for twice.\<close>

definition calls_registered :: "world \<Rightarrow> bool" where
  "calls_registered w \<longleftrightarrow>
     distinct (map fst (loaderCalls w)) \<and>
     list_all (\<lambda>lc. case map_of (promiseMap w) (fst lc) of
                       None \<Rightarrow> False
                     | Some pe \<Rightarrow> promise pe \<noteq> None) (loaderCalls w)"

lemma commit_frame [simp]:
  "loaderCalls (commit e c out w) = loaderCalls w"
  "promiseMap (commit e c out w) = promiseMap w"
  "cacheMap (commit e c out w) = cacheMap w"
  "cacheSrcMap (commit e c out w) = cacheSrcMap w"
  "props (commit e c out w) = props w"
  "hooks (commit e c out w) = hooks w"
  "promises (commit e c out w) = promises w"
  "handlers (commit e c out w) = handlers w"
  "jobs (commit e c out w) = jobs w"
  "unhandled (commit e c out w) = unhandled w"
  "onLoadedCalls (commit e c out w) = onLoadedCalls w"
  by (cases "(e, c, out, w)" rule: commit.cases; simp split: option.splits)+

lemma run_effects_frame [simp]:
  "loaderCalls (run_effects e c w) = loaderCalls w"
  "promiseMap (run_effects e c w) = promiseMap w"
  "cacheMap (run_effects e c w) = cacheMap w"
  "cacheSrcMap (run_effects e c w) = cacheSrcMap w"
  "props (run_effects e c w) = props w"
  "promises (run_effects e c w) = promises w"
  "handlers (run_effects e c w) = handlers w"
  "jobs (run_effects e c w) = jobs w"
  "unhandled (run_effects e c w) = unhandled w"
  by (simp_all add: run_effects_def Let_def)

section \<open>De-duplication through the pending-load table\<close>

lemma run_job_frame [simp]:
  "loaderCalls (run_job j w) = loaderCalls w"
  "promiseMap (run_job j w) = promiseMap w"
  "cacheSrcMap (run_job j w) = cacheSrcMap w"
  "hooks (run_job j w) = hooks w"
  "document (run_job j w) = document w"
  by (cases "(j, w)" rule: run_job.cases; simp)+

lemma run_jobs_preserves:
  assumes "\<And>j w. f (run_job j w) = f w" and "\<And>js w. f (w\<lparr>jobs := js\<rparr>) = f w"
  shows "f (run_jobs w) = f w"
proof (induction w rule: run_jobs.induct)
  case (1 w)
  show ?case
  proof (cases "jobs w")
    case Nil
    then show ?thesis by (subst run_jobs.simps) simp
  next
    case (Cons j js)
    then have "run_jobs w = run_jobs (run_job j (w\<lparr>jobs := js\<rparr>))"
      by (subst run_jobs.simps) simp
    then show ?thesis
      using "1.IH" [OF Cons] assms by simp
  qed
qed

lemma run_jobs_frame [simp]:
  "loaderCalls (run_jobs w) = loaderCalls w"
  "promiseMap (run_jobs w) = promiseMap w"
  "cacheSrcMap (run_jobs w) = cacheSrcMap w"
  "hooks (run_jobs w) = hooks w"
  "document (run_jobs w) = document w"
  by (rule run_jobs_preserves; simp)+

lemma executor_promiseMap [simp]: "promiseMap (executor e c outer w) = promiseMap w"
  by (simp add: executor_def new_promise_def Let_def split: option.splits prod.splits)

lemma load_promiseMap:
  "promiseMap (snd (load e c w)) =
     (if isServer e then
        AList.update (name c) \<lparr>promise = Some (fst (load e c w)), streaming = (ctype c = Streaming)\<rparr>
          (promiseMap w)
      else promiseMap w)"
  by (simp add: load_def new_promise_def Let_def case_prod_beta split: option.splits)

lemma load_loaderCalls_server:
  assumes "isServer e"
  shows "loaderCalls (snd (load e c w)) =
           (case registered e c w of
              Some p \<Rightarrow> loaderCalls w
            | None \<Rightarrow> loaderCalls w @
                [(name c, js_or (p_loaderValue (props w (cid c))) (loaderValue c),
                  Suc (length (promises w)))])"
  using assms load_registered(2) [of e c w] load_loader_path [of e c w]
  by (simp split: option.splits)

lemma calls_registered_frame:
  "loaderCalls w' = loaderCalls w \<Longrightarrow> promiseMap w' = promiseMap w \<Longrightarrow>
   calls_registered w' = calls_registered w"
  by (simp add: calls_registered_def)

lemma calls_registered_commit [simp]:
  "calls_registered (commit e c out w) = calls_registered w"
  by (simp add: calls_registered_def)

lemma calls_registered_load:
  assumes "isServer e" and "calls_registered w"
  shows "calls_registered (snd (load e c w))"
proof (cases "registered e c w")
  case None
  have absent: "name c \<notin> fst ` set (loaderCalls w)"
  proof
    assume "name c \<in> fst ` set (loaderCalls w)"
    then obtain lc where lc: "lc \<in> set (loaderCalls w)" "fst lc = name c" by auto
    with assms(2) have "case map_of (promiseMap w) (name c) of
                          None \<Rightarrow> False | Some pe \<Rightarrow> promise pe \<noteq> None"
      by (auto simp: calls_registered_def list_all_iff)
    with None assms(1) show False
      by (auto simp: registered_def split: option.splits)
  qed
  have calls: "loaderCalls (snd (load e c w)) = loaderCalls w @
                [(name c, js_or (p_loaderValue (props w (cid c))) (loaderValue c),
                  Suc (length (promises w)))]"
    using load_loaderCalls_server [OF assms(1), of c w] None by simp
  show ?thesis
    using assms absent
    unfolding calls_registered_def calls load_promiseMap
    by (auto simp: list_all_iff update_conv' split: option.splits)
next
  case (Some p)
  have calls: "loaderCalls (snd (load e c w)) = loaderCalls w"
    using load_loaderCalls_server [OF assms(1), of c w] Some by simp
  show ?thesis
    using assms
    unfolding calls_registered_def calls load_promiseMap
    by (auto simp: list_all_iff update_conv' split: option.splits)
qed

lemma SuspenseLoader_tables:
  "(loaderCalls (snd (SuspenseLoader e c w)) = loaderCalls w
      \<and> promiseMap (snd (SuspenseLoader e c w)) = promiseMap w)
   \<or> (\<exists>w1. loaderCalls w1 = loaderCalls w \<and> promiseMap w1 = promiseMap w
          \<and> snd (SuspenseLoader e c w) = snd (load e c w1))"
proof -
  let ?w0 = "if mounted (hooks w (cid c)) then w
             else update_hooks (cid c)
                    (\<lambda>h. h\<lparr>mounted := True, isCSRFallback := (ctype c = Csr),
                           isVisible := True\<rparr>) w"
  let ?w1 = "adoptCache c ?w0"
  have f: "loaderCalls ?w1 = loaderCalls w \<and> promiseMap ?w1 = promiseMap w"
    by simp
  show ?thesis
  proof (cases "isCSRFallback (hooks ?w1 (cid c)) \<or> \<not> isVisible (hooks ?w1 (cid c))
                \<or> p_isInit (props ?w1 (cid c))")
    case True
    then have "loaderCalls (snd (SuspenseLoader e c w)) = loaderCalls ?w1
             \<and> promiseMap (snd (SuspenseLoader e c w)) = promiseMap ?w1"
      unfolding SuspenseLoader_def SuspenseWapper_def Let_def by auto
    with f show ?thesis by simp
  next
    case False
    then have "snd (SuspenseLoader e c w) = snd (load e c ?w1)"
      unfolding SuspenseLoader_def SuspenseWapper_def Let_def
      by (simp add: case_prod_beta)
    with f show ?thesis by blast
  qed
qed

lemma calls_registered_step:
  assumes "isServer e" and "\<not> is_Dispatch ev" and "calls_registered w"
  shows "calls_registered (step e ev w)"
proof (cases ev)
  case (Render c)
  from SuspenseLoader_tables [of e c w] show ?thesis
  proof
    assume "loaderCalls (snd (SuspenseLoader e c w)) = loaderCalls w
          \<and> promiseMap (snd (SuspenseLoader e c w)) = promiseMap w"
    then show ?thesis
      using assms(3) Render calls_registered_frame [of "snd (SuspenseLoader e c w)" w] by simp
  next
    assume "\<exists>w1. loaderCalls w1 = loaderCalls w \<and> promiseMap w1 = promiseMap w
          \<and> snd (SuspenseLoader e c w) = snd (load e c w1)"
    then obtain w1 where w1: "loaderCalls w1 = loaderCalls w" "promiseMap w1 = promiseMap w"
      "snd (SuspenseLoader e c w) = snd (load e c w1)" by blast
    then have "calls_registered w1"
      using assms(3) calls_registered_frame [of w1 w] by simp
    then show ?thesis
      using calls_registered_load [OF assms(1)] w1(3) Render by simp
  qed
next
  case (Settle q st)
  then show ?thesis
    using assms(3) calls_registered_frame [of "settle_promise q st w" w] by simp
next
  case Checkpoint
  then show ?thesis
    using assms(3) calls_registered_frame [of "run_jobs w" w] by simp
next
  case (Effects c)
  then show ?thesis
    using assms(3) calls_registered_frame [of "run_effects e c w" w]
    by simp
next
  case (Dispatch c v)
  with assms(2) show ?thesis by simp
qed

lemma calls_registered_run:
  assumes "isServer e" and "list_all (\<lambda>ev. \<not> is_Dispatch ev) evs" and "calls_registered w"
  shows "calls_registered (run e evs w)"
  using assms(2,3)
proof (induction evs arbitrary: w)
  case Nil
  then show ?case by (simp add: run_def)
next
  case (Cons ev evs)
  then have "calls_registered (step e ev w)"
    using calls_registered_step [OF assms(1)] by simp
  with Cons show ?case by (simp add: run_def)
qed

lemma distinct_names_filter:
  "distinct (map fst xs) \<Longrightarrow> length (filter (\<lambda>x. fst x = n) xs) \<le> 1"
  by (induction xs) (auto simp: filter_empty_conv image_iff)

text \<open>
  C1, as stated, fails off the server: there \<^verbatim>\<open>load\<close> neither reads nor writes the
  pending-load table, so two instances with one name that mount before the load settles
  each call the loader.
\<close>

theorem client_scope_calls_loader_twice_counterexample:
  "length (loaderCallsFor ''news'' (run client_env [Render news1, Render news2] fresh_world)) = 2"
  by code_simp

text \<open>
  C1, amended. On the server, in a scope that starts with an empty pending-load table and
  as long as no reload is dispatched, the loader is called at most once for any name,
  whatever instances render and whenever promises settle; an instance whose name has a
  registered operation gets that operation from \<^verbatim>\<open>load\<close>, and no loader call is made.
\<close>

theorem server_scope_calls_loader_once:
  assumes "isServer e"
    and "promiseMap w = []"
    and "loaderCalls w = []"
    and "list_all (\<lambda>ev. \<not> is_Dispatch ev) evs"
  shows "length (loaderCallsFor n (run e evs w)) \<le> 1
       \<and> (\<forall>c p. registered e c (run e evs w) = Some p \<longrightarrow>
             fst (load e c (run e evs w)) = p
             \<and> loaderCalls (snd (load e c (run e evs w))) = loaderCalls (run e evs w))"
proof -
  have "calls_registered w"
    using assms(2,3) by (simp add: calls_registered_def)
  then have "calls_registered (run e evs w)"
    using calls_registered_run [OF assms(1,4)] by simp
  then have "distinct (map fst (loaderCalls (run e evs w)))"
    by (simp add: calls_registered_def)
  then have "length (loaderCallsFor n (run e evs w)) \<le> 1"
    unfolding loaderCallsFor_def by (rule distinct_names_filter)
  then show ?thesis
    using load_registered by blast
qed

theorem server_scope_calls_loader_once_witness:
  "length (loaderCallsFor ''news''
             (run server_env
                [Render news1, Render news2, Settle 1 (Fulfilled (JNum 5)), Checkpoint]
                fresh_world)) \<le> 1
   \<and> registered server_env news2 (run server_env [Render news1] fresh_world) = Some 0
   \<and> fst (load server_env news2 (run server_env [Render news1] fresh_world)) = 0"
proof -
  have s: "isServer server_env" by (simp add: server_env_def)
  have p: "promiseMap fresh_world = []" and l: "loaderCalls fresh_world = []"
    by (simp_all add: fresh_world_def)
  have a: "list_all (\<lambda>ev. \<not> is_Dispatch ev)
             [Render news1, Render news2, Settle 1 (Fulfilled (JNum 5)), Checkpoint]"
    by simp
  have b: "list_all (\<lambda>ev. \<not> is_Dispatch ev) [Render news1]"
    by simp
  have r: "registered server_env news2 (run server_env [Render news1] fresh_world) = Some 0"
    by code_simp
  from server_scope_calls_loader_once [OF s p l a, of "''news''"]
    server_scope_calls_loader_once [OF s p l b, of "''news''"] r
  show ?thesis by blast
qed

section \<open>The lifetime of a pending entry\<close>

lemma load_keeps_entries:
  "map_of (promiseMap w) n \<noteq> None \<Longrightarrow> map_of (promiseMap (snd (load e c w))) n \<noteq> None"
  by (simp add: load_promiseMap update_conv')

lemma step_keeps_entries:
  assumes "\<not> is_Dispatch ev" and "map_of (promiseMap w) n \<noteq> None"
  shows "map_of (promiseMap (step e ev w)) n \<noteq> None"
proof (cases ev)
  case (Render c)
  from SuspenseLoader_tables [of e c w] show ?thesis
  proof
    assume "loaderCalls (snd (SuspenseLoader e c w)) = loaderCalls w
          \<and> promiseMap (snd (SuspenseLoader e c w)) = promiseMap w"
    then show ?thesis using assms(2) Render by simp
  next
    assume "\<exists>w1. loaderCalls w1 = loaderCalls w \<and> promiseMap w1 = promiseMap w
          \<and> snd (SuspenseLoader e c w) = snd (load e c w1)"
    then obtain w1 where w1: "promiseMap w1 = promiseMap w"
      "snd (SuspenseLoader e c w) = snd (load e c w1)" by blast
    then show ?thesis
      using assms(2) Render load_keeps_entries [of w1 n e c] by simp
  qed
next
  case (Settle q st)
  then show ?thesis using assms(2) by simp
next
  case Checkpoint
  then show ?thesis using assms(2) by simp
next
  case (Effects c)
  then show ?thesis using assms(2) by simp
next
  case (Dispatch c v)
  with assms(1) show ?thesis by simp
qed

lemma run_keeps_entries:
  assumes "list_all (\<lambda>ev. \<not> is_Dispatch ev) evs" and "map_of (promiseMap w) n \<noteq> None"
  shows "map_of (promiseMap (run e evs w)) n \<noteq> None"
  using assms
proof (induction evs arbitrary: w)
  case Nil
  then show ?case by (simp add: run_def)
next
  case (Cons ev evs)
  then have "map_of (promiseMap (step e ev w)) n \<noteq> None"
    using step_keeps_entries by simp
  with Cons show ?case by (simp add: run_def)
qed

text \<open>
  C4, as stated, fails in its second half: when the cache entry is populated the pending
  entry is not removed. On the server, after the loader's promise is fulfilled and the
  callbacks have run, both tables hold the name.
\<close>

theorem pending_entry_survives_settlement_counterexample:
  "map_of (cacheMap (run server_env
                       [Render news1, Settle 1 (Fulfilled (JNum 5)), Checkpoint] fresh_world))
          ''news'' = Some (JNum 5)
   \<and> map_of (promiseMap (run server_env
                       [Render news1, Settle 1 (Fulfilled (JNum 5)), Checkpoint] fresh_world))
          ''news'' = Some \<lparr>promise = Some 0, streaming = True\<rparr>"
  by code_simp

text \<open>
  C4, amended. On the server \<^verbatim>\<open>load\<close> registers the pending entry of its name at once,
  and the entry stays through every later render, settlement, checkpoint and effect, the
  one that populates the cache entry included; only the reload trigger deletes it, together
  with the cache entry. Off the server \<^verbatim>\<open>load\<close> leaves the pending-load table as it is.
\<close>

theorem pending_entry_lifetime:
  assumes "list_all (\<lambda>ev. \<not> is_Dispatch ev) evs"
  shows "(isServer e \<longrightarrow>
            map_of (promiseMap (snd (load e c w))) (name c)
              = Some \<lparr>promise = Some (fst (load e c w)), streaming = (ctype c = Streaming)\<rparr>
            \<and> map_of (promiseMap (run e evs (snd (load e c w)))) (name c) \<noteq> None)
       \<and> map_of (promiseMap (loadDispatch e c v w)) (name c) = None
       \<and> map_of (cacheMap (loadDispatch e c v w)) (name c) = None
       \<and> (\<not> isServer e \<longrightarrow> promiseMap (snd (load e c w)) = promiseMap w)"
proof -
  have a: "isServer e \<Longrightarrow>
            map_of (promiseMap (snd (load e c w))) (name c)
              = Some \<lparr>promise = Some (fst (load e c w)), streaming = (ctype c = Streaming)\<rparr>"
    by (simp add: load_promiseMap update_conv')
  have b: "isServer e \<Longrightarrow> map_of (promiseMap (run e evs (snd (load e c w)))) (name c) \<noteq> None"
    using a run_keeps_entries [OF assms, of "snd (load e c w)" "name c" e] by simp
  have c: "map_of (promiseMap (loadDispatch e c v w)) (name c) = None
         \<and> map_of (cacheMap (loadDispatch e c v w)) (name c) = None"
    by (simp add: loadDispatch_def Let_def delete_conv')
  have d: "\<not> isServer e \<Longrightarrow> promiseMap (snd (load e c w)) = promiseMap w"
    by (simp add: load_promiseMap)
  show ?thesis using a b c d by blast
qed

theorem pending_entry_lifetime_witness:
  "map_of (promiseMap (snd (load server_env news1 fresh_world))) ''news''
     = Some \<lparr>promise = Some 0, streaming = True\<rparr>
   \<and> map_of (promiseMap (run server_env [Settle 1 (Fulfilled (JNum 5)), Checkpoint]
                           (snd (load server_env news1 fresh_world)))) ''news'' \<noteq> None
   \<and> map_of (cacheMap (run server_env [Settle 1 (Fulfilled (JNum 5)), Checkpoint]
                           (snd (load server_env news1 fresh_world)))) ''news'' = Some (JNum 5)
   \<and> promiseMap (snd (load client_env news1 fresh_world)) = []"
proof -
  have a: "list_all (\<lambda>ev. \<not> is_Dispatch ev) [Settle 1 (Fulfilled (JNum 5)), Checkpoint]"
    by simp
  have s: "isServer server_env" and k: "\<not> isServer client_env"
    by (simp_all add: server_env_def client_env_def)
  have n: "name news1 = ''news''" "ctype news1 = Streaming" by (simp_all add: news1_def)
  have f: "fst (load server_env news1 fresh_world) = 0"
    by code_simp
  have q: "map_of (cacheMap (run server_env [Settle 1 (Fulfilled (JNum 5)), Checkpoint]
                           (snd (load server_env news1 fresh_world)))) ''news'' = Some (JNum 5)"
    by code_simp
  have z: "promiseMap fresh_world = []" by (simp add: fresh_world_def)
  from pending_entry_lifetime [OF a, of server_env news1 fresh_world JUndefined]
    pending_entry_lifetime [OF a, of client_env news1 fresh_world JUndefined]
    s k n f q z
  show ?thesis by simp
qed

section \<open>A loader that rejects\<close>

lemma pstate_of_append:
  "pstate_of (w\<lparr>promises := promises w @ ps\<rparr>) (length (promises w) + i)
     = (if i < length ps then ps ! i else Pending)"
  by (simp add: pstate_of_def nth_append)

text \<open>The world after a \<^verbatim>\<open>load\<close> that calls the loader: four promises are created, the
  one returned, the loader's, and the two derived by \<^verbatim>\<open>then\<close>.\<close>

lemma load_loader_path_world:
  assumes "registered e c w = None" and "isServer e \<or> document w (idName (name c)) = None"
  shows "snd (load e c w) =
     w\<lparr>promises := promises w @ [Pending, Pending, Pending, Pending],
       handlers := handlers w @
          [(Suc (length (promises w)), LoaderThen c (length (promises w)),
            Suc (Suc (length (promises w)))),
           (length (promises w), Commit c, Suc (Suc (Suc (length (promises w)))))],
       loaderCalls := loaderCalls w @
          [(name c, js_or (p_loaderValue (props w (cid c))) (loaderValue c),
            Suc (length (promises w)))],
       promiseMap := (if isServer e then
            AList.update (name c)
              \<lparr>promise = Some (length (promises w)), streaming = (ctype c = Streaming)\<rparr>
              (promiseMap w)
          else promiseMap w)\<rparr>"
  using assms
  by (auto simp add: load_def executor_def new_promise_def then_promise_def pstate_of_def
        nth_append Let_def)

lemma run_jobs_single:
  assumes "jobs w = [j]" and "jobs (run_job j (w\<lparr>jobs := []\<rparr>)) = []"
  shows "run_jobs w = run_job j (w\<lparr>jobs := []\<rparr>)"
proof -
  have "run_jobs w = run_jobs (run_job j (w\<lparr>jobs := []\<rparr>))"
    using assms(1) by (subst run_jobs.simps) simp
  also have "\<dots> = run_job j (w\<lparr>jobs := []\<rparr>)"
    using assms(2) by (subst run_jobs.simps) simp
  finally show ?thesis .
qed

text \<open>
  C9, as stated, fails in one part: the promise that \<^verbatim>\<open>load\<close> returns is not rejected
  when the loader rejects. It stays pending.
\<close>

theorem load_promise_not_rejected_counterexample:
  "fst (SuspenseLoader client_env news1 fresh_world) = Suspended 0
   \<and> pstate_of (run client_env [Render news1, Settle 1 (Rejected (JStr ''boom'')), Checkpoint]
                  fresh_world) 0 = Pending"
  by code_simp

text \<open>
  C9, amended. When the loader's promise is rejected, no callback of the core runs: the
  rejection passes to the promise derived inside \<^verbatim>\<open>load\<close>, where it is unhandled, the
  promise that \<^verbatim>\<open>load\<close> returned stays pending, and the records and the cache are as
  they were before the load.
\<close>

theorem loader_rejection_is_unhandled:
  assumes "registered e c w = None"
    and "isServer e \<or> document w (idName (name c)) = None"
    and "jobs w = []"
    and "list_all (\<lambda>h. fst h < length (promises w)) (handlers w)"
  shows "fst (load e c w) = length (promises w)
       \<and> pstate_of (run e [Settle (Suc (length (promises w))) (Rejected err), Checkpoint]
                      (snd (load e c w))) (length (promises w)) = Pending
       \<and> pstate_of (run e [Settle (Suc (length (promises w))) (Rejected err), Checkpoint]
                      (snd (load e c w))) (Suc (Suc (length (promises w)))) = Rejected err
       \<and> unhandled (run e [Settle (Suc (length (promises w))) (Rejected err), Checkpoint]
                      (snd (load e c w))) = unhandled w @ [Suc (Suc (length (promises w)))]
       \<and> props (run e [Settle (Suc (length (promises w))) (Rejected err), Checkpoint]
                      (snd (load e c w))) = props w
       \<and> cacheMap (run e [Settle (Suc (length (promises w))) (Rejected err), Checkpoint]
                      (snd (load e c w))) = cacheMap w"
proof -
  let ?n = "length (promises w)"
  let ?w1 = "snd (load e c w)"
  let ?w2 = "settle_promise (Suc ?n) (Rejected err) ?w1"
  let ?j = "(LoaderThen c ?n, Suc (Suc ?n), Rejected err)"
  have w1: "?w1 =
     w\<lparr>promises := promises w @ [Pending, Pending, Pending, Pending],
       handlers := handlers w @
          [(Suc ?n, LoaderThen c ?n, Suc (Suc ?n)), (?n, Commit c, Suc (Suc (Suc ?n)))],
       loaderCalls := loaderCalls w @
          [(name c, js_or (p_loaderValue (props w (cid c))) (loaderValue c), Suc ?n)],
       promiseMap := (if isServer e then
            AList.update (name c)
              \<lparr>promise = Some ?n, streaming = (ctype c = Streaming)\<rparr> (promiseMap w)
          else promiseMap w)\<rparr>"
    by (rule load_loader_path_world [OF assms(1,2)])
  have old: "filter (\<lambda>h. fst h = Suc ?n) (handlers w) = []"
    "filter (\<lambda>h. fst h \<noteq> Suc ?n) (handlers w) = handlers w"
    "filter (\<lambda>h. fst h = Suc (Suc ?n)) (handlers w) = []"
    "filter (\<lambda>h. fst h \<noteq> Suc (Suc ?n)) (handlers w) = handlers w"
    using assms(4) by (auto simp: list_all_iff filter_empty_conv filter_id_conv)
  have w2: "?w2 =
     w\<lparr>promises := promises w @ [Pending, Rejected err, Pending, Pending],
       handlers := handlers w @ [(?n, Commit c, Suc (Suc (Suc ?n)))],
       jobs := [?j],
       loaderCalls := loaderCalls ?w1,
       promiseMap := promiseMap ?w1\<rparr>"
    unfolding w1 using assms(3) old
    by (simp add: settle_promise_def Let_def nth_append list_update_append)
  have w3: "run_job ?j (?w2\<lparr>jobs := []\<rparr>) =
     w\<lparr>promises := promises w @ [Pending, Rejected err, Rejected err, Pending],
       handlers := handlers w @ [(?n, Commit c, Suc (Suc (Suc ?n)))],
       jobs := [],
       unhandled := unhandled w @ [Suc (Suc ?n)],
       loaderCalls := loaderCalls ?w1,
       promiseMap := promiseMap ?w1\<rparr>"
    unfolding w2 using old
    by (simp add: settle_promise_def Let_def nth_append list_update_append)
  have "run_jobs ?w2 = run_job ?j (?w2\<lparr>jobs := []\<rparr>)"
  proof (rule run_jobs_single)
    show "jobs ?w2 = [?j]" unfolding w2 by simp
    show "jobs (run_job ?j (?w2\<lparr>jobs := []\<rparr>)) = []" unfolding w3 by simp
  qed
  moreover have "Suc ?n \<in> set (map (\<lambda>lc. snd (snd lc)) (loaderCalls ?w1))"
    unfolding w1 by simp
  ultimately have r: "run e [Settle (Suc ?n) (Rejected err), Checkpoint] ?w1
                      = run_job ?j (?w2\<lparr>jobs := []\<rparr>)"
    by (simp add: run_def)
  have f: "fst (load e c w) = ?n"
    by (rule load_fresh_promise [OF assms(1)])
  show ?thesis
    unfolding r w3 using f
    by (simp add: pstate_of_def nth_append)
qed

theorem loader_rejection_is_unhandled_witness:
  "pstate_of (run client_env [Settle 1 (Rejected (JStr ''boom'')), Checkpoint]
                (snd (load client_env news1 fresh_world))) 0 = Pending
   \<and> pstate_of (run client_env [Settle 1 (Rejected (JStr ''boom'')), Checkpoint]
                (snd (load client_env news1 fresh_world))) 2 = Rejected (JStr ''boom'')
   \<and> unhandled (run client_env [Settle 1 (Rejected (JStr ''boom'')), Checkpoint]
                (snd (load client_env news1 fresh_world))) = [2]
   \<and> cacheMap (run client_env [Settle 1 (Rejected (JStr ''boom'')), Checkpoint]
                (snd (load client_env news1 fresh_world))) = []"
proof -
  have h1: "registered client_env news1 fresh_world = None"
    by (simp add: registered_def client_env_def)
  have h2: "isServer client_env \<or> document fresh_world (idName (name news1)) = None"
    by (simp add: fresh_world_def)
  have h3: "jobs fresh_world = []" by (simp add: fresh_world_def)
  have h4: "list_all (\<lambda>h. fst h < length (promises fresh_world)) (handlers fresh_world)"
    by (simp add: fresh_world_def)
  have z: "length (promises fresh_world) = 0" "unhandled fresh_world = []"
    "cacheMap fresh_world = []"
    by (simp_all add: fresh_world_def)
  from loader_rejection_is_unhandled [OF h1 h2 h3 h4, of "JStr ''boom''"] z
  show ?thesis by (simp add: numeral_2_eq_2)
qed

section \<open>The global context bridge merges and snapshots\<close>

lemma map_of_fold_update:
  "distinct (map fst src) \<Longrightarrow>
   map_of (fold (\<lambda>(k, v). AList.update k v) src target) = map_of target ++ map_of src"
proof (induction src arbitrary: target)
  case Nil
  then show ?case by simp
next
  case (Cons kv src)
  obtain k v where kv: "kv = (k, v)" by (cases kv)
  from Cons.prems kv have d: "distinct (map fst src)" and k: "map_of src k = None"
    by (auto simp: map_of_eq_None_iff)
  have "map_of (fold (\<lambda>(k, v). AList.update k v) (kv # src) target)
        = map_of (AList.update k v target) ++ map_of src"
    using Cons.IH [OF d] kv by simp
  also have "\<dots> = (map_of target)(k \<mapsto> v) ++ map_of src"
    by (simp add: update_conv')
  also have "\<dots> = map_of target ++ map_of (kv # src)"
    using k kv by (auto simp: map_add_def fun_eq_iff split: option.splits)
  finally show ?case .
qed

lemma map_of_Object_assign:
  "distinct (map fst src) \<Longrightarrow> map_of (Object_assign target src) = map_of target ++ map_of src"
  by (simp add: Object_assign_def map_of_fold_update)

lemma map_of_spread: "distinct (map fst d) \<Longrightarrow> map_of (spread d) = map_of d"
  by (simp add: spread_def map_of_Object_assign)

text \<open>
  C7, as stated, fails. In \<^verbatim>\<open>src/index.tsx\<close> the source cache is a copy of the cache
  table that was passed in, not of the merged cache: an entry that the default context
  held before under another name is in the merged cache and not in the source cache. In
  the second source file the two tables are assigned, not merged: that entry is lost.
\<close>

theorem source_cache_is_not_merged_cache_counterexample:
  "map_of (cacheMap (setSuspenseTreeContext
              (Some \<lparr>ctx_promiseMap = [], ctx_cacheMap = [(''b'', JNum 2)]\<rparr>)
              (fresh_world\<lparr>cacheMap := [(''a'', JNum 1)]\<rparr>))) ''a'' = Some (JNum 1)
   \<and> map_of (cacheSrcMap (setSuspenseTreeContext
              (Some \<lparr>ctx_promiseMap = [], ctx_cacheMap = [(''b'', JNum 2)]\<rparr>)
              (fresh_world\<lparr>cacheMap := [(''a'', JNum 1)]\<rparr>))) ''a'' = None
   \<and> map_of (cacheMap (setSuspenseTreeContext_p0
              (Some \<lparr>ctx_promiseMap = [], ctx_cacheMap = [(''b'', JNum 2)]\<rparr>)
              (fresh_world\<lparr>cacheMap := [(''a'', JNum 1)]\<rparr>))) ''a'' = None"
  by code_simp

text \<open>
  C7, amended, for each of the two source files. Without a context neither function
  changes anything. With one, \<^verbatim>\<open>setSuspenseTreeContext\<close> of \<^verbatim>\<open>src/index.tsx\<close> makes the
  two tables of the default context the old tables overridden by the given ones, so an
  entry under a name that the given table lacks is kept; the function of the second source
  file makes them the given tables, so such an entry is lost. In both files the source
  cache becomes a copy of the given cache table.
\<close>

theorem setSuspenseTreeContext_in_both_sources:
  assumes "distinct (map fst (ctx_cacheMap ctx))"
    and "distinct (map fst (ctx_promiseMap ctx))"
  shows "setSuspenseTreeContext None w = w
       \<and> map_of (cacheMap (setSuspenseTreeContext (Some ctx) w))
           = map_of (cacheMap w) ++ map_of (ctx_cacheMap ctx)
       \<and> map_of (promiseMap (setSuspenseTreeContext (Some ctx) w))
           = map_of (promiseMap w) ++ map_of (ctx_promiseMap ctx)
       \<and> map_of (cacheSrcMap (setSuspenseTreeContext (Some ctx) w))
           = map_of (ctx_cacheMap ctx)
       \<and> (\<forall>k. map_of (ctx_cacheMap ctx) k = None \<longrightarrow>
              map_of (cacheMap (setSuspenseTreeContext (Some ctx) w)) k = map_of (cacheMap w) k)
       \<and> (\<forall>k. map_of (ctx_promiseMap ctx) k = None \<longrightarrow>
              map_of (promiseMap (setSuspenseTreeContext (Some ctx) w)) k
                = map_of (promiseMap w) k)
       \<and> setSuspenseTreeContext_p0 None w = w
       \<and> cacheMap (setSuspenseTreeContext_p0 (Some ctx) w) = ctx_cacheMap ctx
       \<and> promiseMap (setSuspenseTreeContext_p0 (Some ctx) w) = ctx_promiseMap ctx
       \<and> map_of (cacheSrcMap (setSuspenseTreeContext_p0 (Some ctx) w))
           = map_of (ctx_cacheMap ctx)
       \<and> (\<forall>k. map_of (ctx_cacheMap ctx) k = None \<longrightarrow>
              map_of (cacheMap (setSuspenseTreeContext_p0 (Some ctx) w)) k = None)"
  using assms
  by (simp add: setSuspenseTreeContext_def setSuspenseTreeContext_p0_def
        map_of_Object_assign map_of_spread map_add_def)

theorem setSuspenseTreeContext_in_both_sources_witness:
  "map_of (cacheMap (setSuspenseTreeContext
              (Some \<lparr>ctx_promiseMap = [], ctx_cacheMap = [(''b'', JNum 2)]\<rparr>)
              (fresh_world\<lparr>cacheMap := [(''a'', JNum 1)]\<rparr>)))
     = [''a'' \<mapsto> JNum 1, ''b'' \<mapsto> JNum 2]
   \<and> map_of (cacheSrcMap (setSuspenseTreeContext
              (Some \<lparr>ctx_promiseMap = [], ctx_cacheMap = [(''b'', JNum 2)]\<rparr>)
              (fresh_world\<lparr>cacheMap := [(''a'', JNum 1)]\<rparr>)))
     = [''b'' \<mapsto> JNum 2]
   \<and> cacheMap (setSuspenseTreeContext_p0
              (Some \<lparr>ctx_promiseMap = [], ctx_cacheMap = [(''b'', JNum 2)]\<rparr>)
              (fresh_world\<lparr>cacheMap := [(''a'', JNum 1)]\<rparr>))
     = [(''b'', JNum 2)]
   \<and> map_of (cacheSrcMap (setSuspenseTreeContext_p0
              (Some \<lparr>ctx_promiseMap = [], ctx_cacheMap = [(''b'', JNum 2)]\<rparr>)
              (fresh_world\<lparr>cacheMap := [(''a'', JNum 1)]\<rparr>)))
     = [''b'' \<mapsto> JNum 2]"
proof -
  let ?ctx = "\<lparr>ctx_promiseMap = [], ctx_cacheMap = [(''b'', JNum 2)]\<rparr>"
  have h1: "distinct (map fst (ctx_cacheMap ?ctx))" by simp
  have h2: "distinct (map fst (ctx_promiseMap ?ctx))" by simp
  from setSuspenseTreeContext_in_both_sources
         [OF h1 h2, of "fresh_world\<lparr>cacheMap := [(''a'', JNum 1)]\<rparr>"]
  show ?thesis by (simp add: fresh_world_def)
qed

section \<open>The reload trigger\<close>

lemma loadDispatch_frame [simp]:
  "loaderCalls (loadDispatch e c v w) = loaderCalls w"
  "promises (loadDispatch e c v w) = promises w"
  "handlers (loadDispatch e c v w) = handlers w"
  "jobs (loadDispatch e c v w) = jobs w"
  "cacheSrcMap (loadDispatch e c v w) = cacheSrcMap w"
  "document (loadDispatch e c v w) = document w"
  "cacheMap (loadDispatch e c v w) = AList.delete (name c) (cacheMap w)"
  "promiseMap (loadDispatch e c v w) = AList.delete (name c) (promiseMap w)"
  "props (loadDispatch e c v w) (cid c)
     = (props w (cid c))\<lparr>p_value := JUndefined, p_isInit := False, p_loaderValue := v\<rparr>"
  "hooks (loadDispatch e c v w) (cid c)
     = (hooks w (cid c))\<lparr>isVisible := isServer e, reloads := Suc (reloads (hooks w (cid c)))\<rparr>"
  by (simp_all add: loadDispatch_def Let_def)












section \<open>Hydration from a data marker\<close>





section \<open>The tree collector against the specification\<close>






















end
